theory Spec2Isabelle
  imports Main "HOL-Library.Word" "HOL-Library.AList"
begin

unbundle bit_operations_syntax

section \<open>type\_def.h: constants, identifiers, signatures\<close>

text \<open>
  \<^verbatim>\<open>constexpr uint8_t kMaxComponents = 64;\<close> and
  \<^verbatim>\<open>constexpr uint16_t kMaxEntities = 65535;\<close>.
  An \<open>Entity\<close> is a \<^verbatim>\<open>uint32_t\<close>, a \<open>Signature\<close> a
  \<^verbatim>\<open>std::bitset<kMaxComponents>\<close> (64 bits), a \<open>ComponentType\<close> a
  \<^verbatim>\<open>uint16_t\<close>. The keys of the managers' maps are the pointers returned by
  \<^verbatim>\<open>typeid(T).name()\<close>: one key per type, modelled by the name.
\<close>

definition kMaxComponents :: nat where
  "kMaxComponents = 64"

definition kMaxEntities :: nat where
  "kMaxEntities = 65535"

type_synonym Entity = "32 word"
type_synonym Signature = "64 word"
type_synonym ComponentType = "16 word"
type_synonym type_name = string

text \<open>
  Every exception of the source is a \<^verbatim>\<open>std::runtime_error\<close> with a message; the
  constructors name the message's kind (\<open>NotFound\<close> also for the missing component list
  of \<^verbatim>\<open>GetComponentList\<close>). \<open>BitsetOutOfRange\<close> is the
  \<^verbatim>\<open>std::out_of_range\<close> of \<^verbatim>\<open>std::bitset::set\<close>.
\<close>

datatype error =
    CapacityExceeded
  | OutOfRange
  | DuplicateEntity
  | NotFound
  | UnregisteredType
  | AlreadyRegistered
  | BitsetOutOfRange

text \<open>
  \<^verbatim>\<open>std::map::operator[]\<close> used as a read: a missing key is inserted with the
  value-initialised (zero) value, which is returned.
\<close>

definition map_index :: "('k \<rightharpoonup> 'v::zero) \<Rightarrow> 'k \<Rightarrow> 'v \<times> ('k \<rightharpoonup> 'v)" where
  "map_index m k = (case m k of Some v \<Rightarrow> (v, m) | None \<Rightarrow> (0, m(k \<mapsto> 0)))"

text \<open>\<^verbatim>\<open>x - 1\<close> and \<^verbatim>\<open>++x\<close> on a \<^verbatim>\<open>size_t\<close> (64 bits): both wrap around.\<close>

definition size_t_dec :: "nat \<Rightarrow> nat" where
  "size_t_dec n = (if n = 0 then 2 ^ 64 - 1 else n - 1)"

definition size_t_inc :: "nat \<Rightarrow> nat" where
  "size_t_inc n = (n + 1) mod 2 ^ 64"

text \<open>
  \<^verbatim>\<open>std::bitset<64>::set(pos, val)\<close>: throws when \<open>pos\<close> is not a bit of the set.
\<close>

definition bitset_set :: "Signature \<Rightarrow> ComponentType \<Rightarrow> bool \<Rightarrow> error + Signature" where
  "bitset_set s pos val =
     (if \<not> unat pos < kMaxComponents then Inl BitsetOutOfRange
      else Inr (if val then set_bit (unat pos) s else unset_bit (unat pos) s))"

section \<open>component\_list.h: the dense store of one component type\<close>

text \<open>
  The fields of \<^verbatim>\<open>ComponentList<T>\<close>. The two \<^verbatim>\<open>std::map\<close>s are partial functions.
  \<^verbatim>\<open>std::array<T, kMaxEntities> components_\<close> is a function on indices: the source
  indexes it with \<^verbatim>\<open>operator[]\<close>, which checks nothing, and the model follows the
  source's statements as they are written, also for an index that is not below
  \<open>kMaxEntities\<close> (there the C++ access is outside the array). Field names are the
  source's without the trailing underscore.
\<close>

record 'c ComponentList =
  next_component_index :: nat
  components :: "nat \<Rightarrow> 'c"
  entity_to_component_index :: "Entity \<rightharpoonup> nat"
  component_index_to_entity :: "nat \<rightharpoonup> Entity"

text \<open>\<^verbatim>\<open>std::make_shared<ComponentList<T>>()\<close>: value-initialised, so zeroed and empty.\<close>

definition ComponentList_new :: "'c::zero ComponentList" where
  "ComponentList_new =
     \<lparr> next_component_index = 0,
       components = (\<lambda>_. 0),
       entity_to_component_index = Map.empty,
       component_index_to_entity = Map.empty \<rparr>"

text \<open>
  \<^verbatim>\<open>Insert\<close>: the duplicate check is the only check, and it throws before anything is
  written. Then the four statements: the component, the two map entries, the count.
\<close>

definition ComponentList_Insert ::
  "'c ComponentList \<Rightarrow> Entity \<Rightarrow> 'c \<Rightarrow> error + 'c ComponentList" where
  "ComponentList_Insert l entity component =
     (if entity \<in> dom (entity_to_component_index l) then Inl DuplicateEntity
      else Inr (l\<lparr> components := (components l)(next_component_index l := component),
                  entity_to_component_index :=
                    (entity_to_component_index l)(entity \<mapsto> next_component_index l),
                  component_index_to_entity :=
                    (component_index_to_entity l)(next_component_index l \<mapsto> entity),
                  next_component_index := size_t_inc (next_component_index l) \<rparr>))"

text \<open>
  \<^verbatim>\<open>Remove\<close>, statement by statement: the last occupied slot is copied over the slot
  of \<open>remove_entity\<close>, the owner of the last slot is remapped, both maps lose one
  entry, and the count goes down by one.
\<close>

definition ComponentList_Remove ::
  "'c ComponentList \<Rightarrow> Entity \<Rightarrow> error + 'c ComponentList" where
  "ComponentList_Remove l remove_entity =
     (if remove_entity \<notin> dom (entity_to_component_index l) then Inl NotFound
      else
        let end_component_idx = size_t_dec (next_component_index l);
            (remove_component_idx, e2c0) = map_index (entity_to_component_index l) remove_entity;
            components' = (components l)(remove_component_idx := components l end_component_idx);
            (end_entity, c2e0) = map_index (component_index_to_entity l) end_component_idx;
            e2c1 = e2c0(end_entity \<mapsto> remove_component_idx);
            c2e1 = c2e0(remove_component_idx \<mapsto> end_entity);
            e2c2 = e2c1(remove_entity := None);
            c2e2 = c2e1(end_component_idx := None)
        in Inr \<lparr> next_component_index = size_t_dec (next_component_index l),
                 components = components',
                 entity_to_component_index = e2c2,
                 component_index_to_entity = c2e2 \<rparr>)"

definition ComponentList_Get :: "'c ComponentList \<Rightarrow> Entity \<Rightarrow> error + 'c" where
  "ComponentList_Get l entity =
     (if entity \<notin> dom (entity_to_component_index l) then Inl NotFound
      else
        let (idx, e2c0) = map_index (entity_to_component_index l) entity
        in Inr (components l idx))"

definition ComponentList_EntityWasDestroyed ::
  "'c ComponentList \<Rightarrow> Entity \<Rightarrow> error + 'c ComponentList" where
  "ComponentList_EntityWasDestroyed l entity =
     (if entity \<in> dom (entity_to_component_index l) then ComponentList_Remove l entity
      else Inr l)"

subsection \<open>Sequences of store operations\<close>

text \<open>
  A caller issues \<^verbatim>\<open>Insert\<close> and \<^verbatim>\<open>Remove\<close> calls one after the other. A call that
  throws (a duplicate insert, a remove of an absent entity) leaves the store as it was,
  both functions throwing before their first write, and the caller goes on with the next
  call. \<open>store_run\<close> returns the final store with the
  number of inserts and of removes that took effect.
\<close>

datatype 'c store_op = Insert_op Entity 'c | Remove_op Entity

fun store_step :: "'c ComponentList \<Rightarrow> 'c store_op \<Rightarrow> error + 'c ComponentList" where
  "store_step l (Insert_op e c) = ComponentList_Insert l e c"
| "store_step l (Remove_op e) = ComponentList_Remove l e"

fun is_Insert_op :: "'c store_op \<Rightarrow> bool" where
  "is_Insert_op (Insert_op e c) = True"
| "is_Insert_op (Remove_op e) = False"

fun store_run :: "'c ComponentList \<Rightarrow> 'c store_op list \<Rightarrow> 'c ComponentList \<times> nat \<times> nat" where
  "store_run l [] = (l, 0, 0)"
| "store_run l (x # xs) =
     (case store_step l x of
        Inl err \<Rightarrow> store_run l xs
      | Inr l' \<Rightarrow>
          (case store_run l' xs of
             (r, n, m) \<Rightarrow> if is_Insert_op x then (r, n + 1, m) else (r, n, m + 1)))"



text \<open>
  The packing invariant: the occupied slots are exactly \<open>[0, count)\<close> and the two maps
  are inverse to each other.
\<close>

definition packed :: "'c ComponentList \<Rightarrow> bool" where
  "packed l \<longleftrightarrow>
     dom (component_index_to_entity l) = {0 ..< next_component_index l} \<and>
     (\<forall>e i. (entity_to_component_index l e = Some i) = (component_index_to_entity l i = Some e))"


section \<open>entity\_manager.h: the identifier pool and the entity signatures\<close>

text \<open>
  \<^verbatim>\<open>std::queue<Entity> available_entities_\<close> is a list (front first, \<^verbatim>\<open>push\<close> appends).
  \<^verbatim>\<open>std::array<Signature, kMaxEntities> entity_signatures_\<close> is a function on entities,
  read and written only after \<^verbatim>\<open>CheckEntityOutOfBound\<close>.
\<close>

record EntityManager =
  available_entities :: "Entity list"
  entity_signatures :: "Entity \<Rightarrow> Signature"

text \<open>
  The constructor's loop
  \<^verbatim>\<open>for (Entity entity = 0; entity < kMaxEntities; ++entity) available_entities_.push(entity);\<close>
\<close>

function EntityManager_seed :: "Entity \<Rightarrow> Entity list \<Rightarrow> Entity list" where
  "EntityManager_seed entity q =
     (if unat entity < kMaxEntities then EntityManager_seed (entity + 1) (q @ [entity]) else q)"
  by pat_completeness auto
termination
proof (relation "measure (\<lambda>(entity, q). kMaxEntities - unat entity)")
  show "wf (measure (\<lambda>(entity :: Entity, q :: Entity list). kMaxEntities - unat entity))"
    by simp
next
  fix entity :: Entity and q :: "Entity list"
  assume a: "unat entity < kMaxEntities"
  then have "unat entity + unat (1 :: Entity) < 2 ^ LENGTH(32)"
    by (simp add: kMaxEntities_def)
  then have "unat (entity + 1) = unat entity + 1"
    by (simp add: unat_add_lem [THEN iffD1])
  with a show "((entity + 1, q @ [entity]), (entity, q))
      \<in> measure (\<lambda>(entity, q). kMaxEntities - unat entity)"
    by simp
qed

definition EntityManager_new :: EntityManager where
  "EntityManager_new =
     \<lparr> available_entities = EntityManager_seed 0 [], entity_signatures = (\<lambda>_. 0) \<rparr>"

definition EntityManager_CreateEntity :: "EntityManager \<Rightarrow> error + Entity \<times> EntityManager" where
  "EntityManager_CreateEntity em =
     (case available_entities em of
        [] \<Rightarrow> Inl CapacityExceeded
      | entity # rest \<Rightarrow> Inr (entity, em\<lparr> available_entities := rest \<rparr>))"

definition CheckEntityOutOfBound :: "Entity \<Rightarrow> error + unit" where
  "CheckEntityOutOfBound entity =
     (if unat entity \<ge> kMaxEntities then Inl OutOfRange else Inr ())"

definition EntityManager_DestroyEntity :: "EntityManager \<Rightarrow> Entity \<Rightarrow> error + EntityManager" where
  "EntityManager_DestroyEntity em entity =
     (case CheckEntityOutOfBound entity of
        Inl err \<Rightarrow> Inl err
      | Inr u \<Rightarrow>
          Inr (em\<lparr> entity_signatures := (entity_signatures em)(entity := 0),
                   available_entities := available_entities em @ [entity] \<rparr>))"

definition EntityManager_SetSignature ::
  "EntityManager \<Rightarrow> Entity \<Rightarrow> Signature \<Rightarrow> error + EntityManager" where
  "EntityManager_SetSignature em entity signature =
     (case CheckEntityOutOfBound entity of
        Inl err \<Rightarrow> Inl err
      | Inr u \<Rightarrow> Inr (em\<lparr> entity_signatures := (entity_signatures em)(entity := signature) \<rparr>))"

definition EntityManager_GetSignature :: "EntityManager \<Rightarrow> Entity \<Rightarrow> error + Signature" where
  "EntityManager_GetSignature em entity =
     (case CheckEntityOutOfBound entity of
        Inl err \<Rightarrow> Inl err
      | Inr u \<Rightarrow> Inr (entity_signatures em entity))"

section \<open>component\_manager.h: one store per registered component type\<close>

text \<open>
  \<^verbatim>\<open>component_lists_\<close> is iterated by \<^verbatim>\<open>EntityWasDestroyed\<close>, so it is an
  association list (\<open>map_of\<close> looks a key up, \<open>AList.update\<close> assigns); each step of
  that loop touches its own store only, so the order of the entries does not matter. The
  stores of all component types carry values of one type \<open>'c\<close>. A function that can throw
  after it has written returns the exception, if any, together with the state it leaves;
  one that throws only before its first write returns \<open>error + state\<close>.
\<close>

record 'c ComponentManager =
  component_types :: "type_name \<rightharpoonup> ComponentType"
  component_lists :: "(type_name \<times> 'c ComponentList) list"
  next_component_type :: ComponentType

definition ComponentManager_new :: "'c ComponentManager" where
  "ComponentManager_new =
     \<lparr> component_types = Map.empty, component_lists = [], next_component_type = 0 \<rparr>"

definition ComponentManager_RegisterComponent ::
  "'c::zero ComponentManager \<Rightarrow> type_name \<Rightarrow> 'c ComponentManager" where
  "ComponentManager_RegisterComponent cm component_type_name =
     (if component_type_name \<in> dom (component_types cm) then cm
      else cm\<lparr> component_lists :=
                  AList.update component_type_name ComponentList_new (component_lists cm),
                component_types :=
                  (component_types cm)(component_type_name \<mapsto> next_component_type cm),
                next_component_type := next_component_type cm + 1 \<rparr>)"

definition ComponentManager_GetComponentList ::
  "'c ComponentManager \<Rightarrow> type_name \<Rightarrow> error + 'c ComponentList" where
  "ComponentManager_GetComponentList cm component_type_name =
     (case map_of (component_lists cm) component_type_name of
        None \<Rightarrow> Inl NotFound
      | Some l \<Rightarrow> Inr l)"

definition ComponentManager_AddComponent ::
  "'c::zero ComponentManager \<Rightarrow> type_name \<Rightarrow> Entity \<Rightarrow> 'c \<Rightarrow> error option \<times> 'c ComponentManager" where
  "ComponentManager_AddComponent cm component_type_name entity component =
     (let cm1 = (if component_type_name \<notin> dom (component_types cm)
                 then ComponentManager_RegisterComponent cm component_type_name else cm)
      in case ComponentManager_GetComponentList cm1 component_type_name of
           Inl err \<Rightarrow> (Some err, cm1)
         | Inr l \<Rightarrow>
             (case ComponentList_Insert l entity component of
                Inl err \<Rightarrow> (Some err, cm1)
              | Inr l' \<Rightarrow>
                  (None, cm1\<lparr> component_lists :=
                                AList.update component_type_name l' (component_lists cm1) \<rparr>)))"

definition ComponentManager_RemoveComponent ::
  "'c ComponentManager \<Rightarrow> type_name \<Rightarrow> Entity \<Rightarrow> error + 'c ComponentManager" where
  "ComponentManager_RemoveComponent cm component_type_name entity =
     (case ComponentManager_GetComponentList cm component_type_name of
        Inl err \<Rightarrow> Inl err
      | Inr l \<Rightarrow>
          (case ComponentList_Remove l entity of
             Inl err \<Rightarrow> Inl err
           | Inr l' \<Rightarrow>
               Inr (cm\<lparr> component_lists :=
                          AList.update component_type_name l' (component_lists cm) \<rparr>)))"

definition ComponentManager_GetComponent ::
  "'c ComponentManager \<Rightarrow> type_name \<Rightarrow> Entity \<Rightarrow> error + 'c" where
  "ComponentManager_GetComponent cm component_type_name entity =
     (case ComponentManager_GetComponentList cm component_type_name of
        Inl err \<Rightarrow> Inl err
      | Inr l \<Rightarrow> ComponentList_Get l entity)"

definition ComponentManager_GetComponentType ::
  "'c ComponentManager \<Rightarrow> type_name \<Rightarrow> error + ComponentType" where
  "ComponentManager_GetComponentType cm component_type_name =
     (case component_types cm component_type_name of
        None \<Rightarrow> Inl UnregisteredType
      | Some component_type \<Rightarrow> Inr component_type)"

fun EntityWasDestroyed_lists ::
  "(type_name \<times> 'c ComponentList) list \<Rightarrow> Entity \<Rightarrow>
     error option \<times> (type_name \<times> 'c ComponentList) list" where
  "EntityWasDestroyed_lists [] entity = (None, [])"
| "EntityWasDestroyed_lists ((name, component_list) # rest) entity =
     (case ComponentList_EntityWasDestroyed component_list entity of
        Inl err \<Rightarrow> (Some err, (name, component_list) # rest)
      | Inr component_list' \<Rightarrow>
          (case EntityWasDestroyed_lists rest entity of
             (r, rest') \<Rightarrow> (r, (name, component_list') # rest')))"

definition ComponentManager_EntityWasDestroyed ::
  "'c ComponentManager \<Rightarrow> Entity \<Rightarrow> error option \<times> 'c ComponentManager" where
  "ComponentManager_EntityWasDestroyed cm entity =
     (case EntityWasDestroyed_lists (component_lists cm) entity of
        (r, lists') \<Rightarrow> (r, cm\<lparr> component_lists := lists' \<rparr>))"

text \<open>Registering a list of component types one after the other.\<close>

definition register_components ::
  "'c::zero ComponentManager \<Rightarrow> type_name list \<Rightarrow> 'c ComponentManager" where
  "register_components cm names = foldl ComponentManager_RegisterComponent cm names"

section \<open>system.h, system\_manager.h: systems and their entity sets\<close>

record System =
  entities :: "Entity set"

text \<open>
  \<^verbatim>\<open>systems_\<close> is iterated by both broadcasts, so it is an association list;
  \<^verbatim>\<open>system_signatures_\<close> is only indexed. A handle returned to a caller aliases the
  entry of \<^verbatim>\<open>systems_\<close>.
\<close>

record SystemManager =
  systems :: "(type_name \<times> System) list"
  system_signatures :: "type_name \<rightharpoonup> Signature"

definition SystemManager_new :: SystemManager where
  "SystemManager_new = \<lparr> systems = [], system_signatures = Map.empty \<rparr>"

text \<open>\<^verbatim>\<open>RegisterSystem(T system)\<close> adopts an instance, \<^verbatim>\<open>RegisterSystem<T>()\<close> makes one.\<close>

definition SystemManager_RegisterSystem ::
  "SystemManager \<Rightarrow> type_name \<Rightarrow> System \<Rightarrow> error + SystemManager" where
  "SystemManager_RegisterSystem sm system_type_name system =
     (if system_type_name \<in> dom (map_of (systems sm)) then Inl AlreadyRegistered
      else Inr (sm\<lparr> systems := AList.update system_type_name system (systems sm) \<rparr>))"

definition SystemManager_RegisterSystem_default ::
  "SystemManager \<Rightarrow> type_name \<Rightarrow> error + SystemManager" where
  "SystemManager_RegisterSystem_default sm system_type_name =
     SystemManager_RegisterSystem sm system_type_name \<lparr> entities = {} \<rparr>"

definition SystemManager_SetSystemSignature ::
  "SystemManager \<Rightarrow> type_name \<Rightarrow> Signature \<Rightarrow> error + SystemManager" where
  "SystemManager_SetSystemSignature sm system_type_name signature =
     (if system_type_name \<notin> dom (map_of (systems sm)) then Inl UnregisteredType
      else Inr (sm\<lparr> system_signatures :=
                      (system_signatures sm)(system_type_name \<mapsto> signature) \<rparr>))"

definition SystemManager_GetSystem :: "SystemManager \<Rightarrow> type_name \<Rightarrow> error + System" where
  "SystemManager_GetSystem sm system_type_name =
     (case map_of (systems sm) system_type_name of
        None \<Rightarrow> Inl UnregisteredType
      | Some system \<Rightarrow> Inr system)"

fun EntityWasDestroyed_systems ::
  "(type_name \<times> System) list \<Rightarrow> Entity \<Rightarrow> (type_name \<times> System) list" where
  "EntityWasDestroyed_systems [] entity = []"
| "EntityWasDestroyed_systems ((name, system) # rest) entity =
     (name, system\<lparr> entities := entities system - {entity} \<rparr>)
       # EntityWasDestroyed_systems rest entity"

definition SystemManager_EntityWasDestroyed :: "SystemManager \<Rightarrow> Entity \<Rightarrow> SystemManager" where
  "SystemManager_EntityWasDestroyed sm entity =
     sm\<lparr> systems := EntityWasDestroyed_systems (systems sm) entity \<rparr>"

text \<open>
  The loop of \<^verbatim>\<open>EntitySignatureChanged\<close>: \<^verbatim>\<open>system_signatures_[type]\<close> is
  \<^verbatim>\<open>operator[]\<close>, which enters the empty signature for a system that has none.
\<close>

fun EntitySignatureChanged_systems ::
  "(type_name \<times> System) list \<Rightarrow> (type_name \<rightharpoonup> Signature) \<Rightarrow> Entity \<Rightarrow> Signature \<Rightarrow>
     (type_name \<times> System) list \<times> (type_name \<rightharpoonup> Signature)" where
  "EntitySignatureChanged_systems [] sigs entity entity_signature = ([], sigs)"
| "EntitySignatureChanged_systems ((type, system) # rest) sigs entity entity_signature =
     (case map_index sigs type of
        (system_signature, sigs1) \<Rightarrow>
          (let compatibility_sig = entity_signature AND system_signature;
               system' = (if compatibility_sig = system_signature
                          then system\<lparr> entities := insert entity (entities system) \<rparr>
                          else system\<lparr> entities := entities system - {entity} \<rparr>)
           in case EntitySignatureChanged_systems rest sigs1 entity entity_signature of
                (rest', sigs2) \<Rightarrow> ((type, system') # rest', sigs2)))"

definition SystemManager_EntitySignatureChanged ::
  "SystemManager \<Rightarrow> Entity \<Rightarrow> Signature \<Rightarrow> SystemManager" where
  "SystemManager_EntitySignatureChanged sm entity entity_signature =
     (case EntitySignatureChanged_systems (systems sm) (system_signatures sm) entity entity_signature of
        (systems', sigs') \<Rightarrow> \<lparr> systems = systems', system_signatures = sigs' \<rparr>)"

text \<open>
  The signature the manager uses for a system: the recorded one, or the empty signature
  when none was set.
\<close>

definition system_signature_of :: "SystemManager \<Rightarrow> type_name \<Rightarrow> Signature" where
  "system_signature_of sm system_type_name = fst (map_index (system_signatures sm) system_type_name)"

section \<open>engine.h: the facade\<close>

record 'c Engine =
  entity_manager :: EntityManager
  component_manager :: "'c ComponentManager"
  system_manager :: SystemManager

definition Engine_new :: "'c Engine" where
  "Engine_new =
     \<lparr> entity_manager = EntityManager_new,
       component_manager = ComponentManager_new,
       system_manager = SystemManager_new \<rparr>"

definition Engine_CreateEntity :: "'c Engine \<Rightarrow> error + Entity \<times> 'c Engine" where
  "Engine_CreateEntity eng =
     (case EntityManager_CreateEntity (entity_manager eng) of
        Inl err \<Rightarrow> Inl err
      | Inr (entity, em') \<Rightarrow> Inr (entity, eng\<lparr> entity_manager := em' \<rparr>))"

definition Engine_DestroyEntity :: "'c Engine \<Rightarrow> Entity \<Rightarrow> error option \<times> 'c Engine" where
  "Engine_DestroyEntity eng entity =
     (case EntityManager_DestroyEntity (entity_manager eng) entity of
        Inl err \<Rightarrow> (Some err, eng)
      | Inr em' \<Rightarrow>
          (let eng1 = eng\<lparr> entity_manager := em' \<rparr>
           in case ComponentManager_EntityWasDestroyed (component_manager eng1) entity of
                (Some err, cm') \<Rightarrow> (Some err, eng1\<lparr> component_manager := cm' \<rparr>)
              | (None, cm') \<Rightarrow>
                  (None, eng1\<lparr> component_manager := cm',
                               system_manager :=
                                 SystemManager_EntityWasDestroyed (system_manager eng1) entity \<rparr>)))"

definition Engine_RegisterComponent :: "'c::zero Engine \<Rightarrow> type_name \<Rightarrow> 'c Engine" where
  "Engine_RegisterComponent eng component_type_name =
     eng\<lparr> component_manager :=
            ComponentManager_RegisterComponent (component_manager eng) component_type_name \<rparr>"

text \<open>
  \<^verbatim>\<open>AddComponent\<close> and \<^verbatim>\<open>RemoveComponent\<close>: the component manager first, then the
  type's bit, the entity's signature read, changed and written back, then the broadcast.
  \<open>set_component_bit\<close> is the part the two share, with the bit's new value.
\<close>

definition set_component_bit ::
  "'c Engine \<Rightarrow> type_name \<Rightarrow> Entity \<Rightarrow> bool \<Rightarrow> error option \<times> 'c Engine" where
  "set_component_bit eng component_type_name entity val =
     (case ComponentManager_GetComponentType (component_manager eng) component_type_name of
        Inl err \<Rightarrow> (Some err, eng)
      | Inr component_id \<Rightarrow>
          (case EntityManager_GetSignature (entity_manager eng) entity of
             Inl err \<Rightarrow> (Some err, eng)
           | Inr entity_signature \<Rightarrow>
               (case bitset_set entity_signature component_id val of
                  Inl err \<Rightarrow> (Some err, eng)
                | Inr entity_signature' \<Rightarrow>
                    (case EntityManager_SetSignature (entity_manager eng) entity entity_signature' of
                       Inl err \<Rightarrow> (Some err, eng)
                     | Inr em' \<Rightarrow>
                         (None, eng\<lparr> entity_manager := em',
                                     system_manager :=
                                       SystemManager_EntitySignatureChanged (system_manager eng)
                                         entity entity_signature' \<rparr>)))))"

definition Engine_AddComponent ::
  "'c::zero Engine \<Rightarrow> type_name \<Rightarrow> Entity \<Rightarrow> 'c \<Rightarrow> error option \<times> 'c Engine" where
  "Engine_AddComponent eng component_type_name entity component =
     (case ComponentManager_AddComponent (component_manager eng) component_type_name entity component of
        (Some err, cm') \<Rightarrow> (Some err, eng\<lparr> component_manager := cm' \<rparr>)
      | (None, cm') \<Rightarrow>
          set_component_bit (eng\<lparr> component_manager := cm' \<rparr>) component_type_name entity True)"

definition Engine_RemoveComponent ::
  "'c Engine \<Rightarrow> type_name \<Rightarrow> Entity \<Rightarrow> error option \<times> 'c Engine" where
  "Engine_RemoveComponent eng component_type_name entity =
     (case ComponentManager_RemoveComponent (component_manager eng) component_type_name entity of
        Inl err \<Rightarrow> (Some err, eng)
      | Inr cm' \<Rightarrow>
          set_component_bit (eng\<lparr> component_manager := cm' \<rparr>) component_type_name entity False)"

definition Engine_HasComponent :: "'c Engine \<Rightarrow> type_name \<Rightarrow> Entity \<Rightarrow> error + bool" where
  "Engine_HasComponent eng component_type_name entity =
     (case ComponentManager_GetComponentType (component_manager eng) component_type_name of
        Inl err \<Rightarrow> Inl err
      | Inr component_type \<Rightarrow>
          (case bitset_set 0 component_type True of
             Inl err \<Rightarrow> Inl err
           | Inr component_signature \<Rightarrow>
               (case EntityManager_GetSignature (entity_manager eng) entity of
                  Inl err \<Rightarrow> Inl err
                | Inr entity_signature \<Rightarrow>
                    Inr ((component_signature AND entity_signature) = component_signature))))"

definition Engine_GetComponent :: "'c Engine \<Rightarrow> type_name \<Rightarrow> Entity \<Rightarrow> error + 'c" where
  "Engine_GetComponent eng component_type_name entity =
     ComponentManager_GetComponent (component_manager eng) component_type_name entity"

definition Engine_GetComponentType :: "'c Engine \<Rightarrow> type_name \<Rightarrow> error + ComponentType" where
  "Engine_GetComponentType eng component_type_name =
     ComponentManager_GetComponentType (component_manager eng) component_type_name"

definition Engine_RegisterSystem ::
  "'c Engine \<Rightarrow> type_name \<Rightarrow> System \<Rightarrow> error + 'c Engine" where
  "Engine_RegisterSystem eng system_type_name system =
     (case SystemManager_RegisterSystem (system_manager eng) system_type_name system of
        Inl err \<Rightarrow> Inl err
      | Inr sm' \<Rightarrow> Inr (eng\<lparr> system_manager := sm' \<rparr>))"

definition Engine_RegisterSystem_default :: "'c Engine \<Rightarrow> type_name \<Rightarrow> error + 'c Engine" where
  "Engine_RegisterSystem_default eng system_type_name =
     (case SystemManager_RegisterSystem_default (system_manager eng) system_type_name of
        Inl err \<Rightarrow> Inl err
      | Inr sm' \<Rightarrow> Inr (eng\<lparr> system_manager := sm' \<rparr>))"

definition Engine_SetSystemSignature ::
  "'c Engine \<Rightarrow> type_name \<Rightarrow> Signature \<Rightarrow> error + 'c Engine" where
  "Engine_SetSystemSignature eng system_type_name signature =
     (case SystemManager_SetSystemSignature (system_manager eng) system_type_name signature of
        Inl err \<Rightarrow> Inl err
      | Inr sm' \<Rightarrow> Inr (eng\<lparr> system_manager := sm' \<rparr>))"

definition Engine_GetSystem :: "'c Engine \<Rightarrow> type_name \<Rightarrow> error + System" where
  "Engine_GetSystem eng system_type_name =
     SystemManager_GetSystem (system_manager eng) system_type_name"

text \<open>
  \<open>create_entities n\<close>: \<open>n\<close> calls of \<^verbatim>\<open>CreateEntity\<close> in a row with no destruction,
  the outcome of each call in order (a call that throws leaves the engine as it was).
\<close>

fun create_entities :: "nat \<Rightarrow> 'c Engine \<Rightarrow> (error + Entity) list \<times> 'c Engine" where
  "create_entities 0 eng = ([], eng)"
| "create_entities (Suc n) eng =
     (case Engine_CreateEntity eng of
        Inl err \<Rightarrow> (case create_entities n eng of (rs, eng') \<Rightarrow> (Inl err # rs, eng'))
      | Inr (entity, eng1) \<Rightarrow>
          (case create_entities n eng1 of (rs, eng') \<Rightarrow> (Inr entity # rs, eng')))"

section \<open>Invariants and example inputs used below\<close>

text \<open>The pool holds identifiers below \<open>kMaxEntities\<close> only.\<close>

definition pool_in_range :: "EntityManager \<Rightarrow> bool" where
  "pool_in_range em \<longleftrightarrow> (\<forall>entity \<in> set (available_entities em). unat entity < kMaxEntities)"

text \<open>A store after \<^verbatim>\<open>Insert(1, 10)\<close> and \<^verbatim>\<open>Insert(2, 20)\<close>.\<close>

definition two_entities :: "nat ComponentList" where
  "two_entities = fst (store_run ComponentList_new [Insert_op 1 10, Insert_op 2 20])"

text \<open>A system manager with one system that holds the entities 1 and 2.\<close>

definition one_system :: SystemManager where
  "one_system = \<lparr> systems = [(''Physics'', \<lparr> entities = {1, 2} \<rparr>)], system_signatures = Map.empty \<rparr>"

text \<open>\<open>n\<close> distinct component type names: \<open>T\<close>, \<open>TT\<close>, \<open>TTT\<close>, ...\<close>

definition type_names :: "nat \<Rightarrow> type_name list" where
  "type_names n = map (\<lambda>i. replicate (Suc i) (CHR ''T'')) [0 ..< n]"

text \<open>
  A fresh engine on which \<^verbatim>\<open>RegisterSystem<Physics>()\<close> was called (no signature set),
  and the same engine after \<^verbatim>\<open>AddComponent<Position>(1, 10)\<close>.
\<close>

definition demo_registered :: "nat Engine" where
  "demo_registered =
     (case Engine_RegisterSystem_default Engine_new ''Physics'' of
        Inl err \<Rightarrow> Engine_new
      | Inr eng1 \<Rightarrow> eng1)"

definition demo_engine :: "nat Engine" where
  "demo_engine = snd (Engine_AddComponent demo_registered ''Position'' 1 10)"

section \<open>The component store keeps its slots packed\<close>

lemma packed_new: "packed ComponentList_new"
  by (simp add: packed_def ComponentList_new_def)

text \<open>A packed store holds as many entities as its count says.\<close>

lemma packed_card:
  assumes "packed l"
  shows "card (dom (entity_to_component_index l)) = next_component_index l"
proof -
  from assms have d: "dom (component_index_to_entity l) = {0 ..< next_component_index l}"
    and inv: "\<And>e i. (entity_to_component_index l e = Some i) = (component_index_to_entity l i = Some e)"
    by (simp_all add: packed_def)
  let ?f = "\<lambda>e. the (entity_to_component_index l e)"
  have inj: "inj_on ?f (dom (entity_to_component_index l))"
    unfolding inj_on_def using inv by (metis domD option.sel)
  have img: "?f ` dom (entity_to_component_index l) = {0 ..< next_component_index l}"
  proof (intro set_eqI iffI)
    fix i assume "i \<in> ?f ` dom (entity_to_component_index l)"
    then obtain e where "entity_to_component_index l e = Some i" by force
    with inv have "i \<in> dom (component_index_to_entity l)" by blast
    with d show "i \<in> {0 ..< next_component_index l}" by simp
  next
    fix i assume "i \<in> {0 ..< next_component_index l}"
    with d obtain e where "component_index_to_entity l i = Some e" by blast
    with inv have "entity_to_component_index l e = Some i" by simp
    then show "i \<in> ?f ` dom (entity_to_component_index l)" by force
  qed
  from card_image [OF inj] img show ?thesis by simp
qed

text \<open>
  There are \<open>2 ^ 32\<close> entity identifiers, so the count of a packed store is far from the
  end of \<^verbatim>\<open>size_t\<close> and \<^verbatim>\<open>++next_component_index_\<close> does not wrap.
\<close>

lemma packed_inc:
  assumes "packed l"
  shows "size_t_inc (next_component_index l) = next_component_index l + 1"
proof -
  have "card (dom (entity_to_component_index l)) \<le> card (UNIV :: Entity set)"
    by (intro card_mono) simp_all
  also have "card (UNIV :: Entity set) = 2 ^ 32"
    by (simp add: card_word)
  finally have "next_component_index l \<le> 2 ^ 32"
    by (simp add: packed_card [OF assms])
  then have "next_component_index l + 1 < 2 ^ 64" by simp
  then show ?thesis by (simp add: size_t_inc_def)
qed

text \<open>What Insert computes on a packed store: the source has no other check than the
  duplicate check, so a fresh entity is always stored, in the slot \<open>count\<close>.\<close>

lemma Insert_packed_result:
  assumes p: "packed l" and fresh: "e \<notin> dom (entity_to_component_index l)"
  shows "ComponentList_Insert l e c =
           Inr (l\<lparr> components := (components l)(next_component_index l := c),
                  entity_to_component_index :=
                    (entity_to_component_index l)(e \<mapsto> next_component_index l),
                  component_index_to_entity :=
                    (component_index_to_entity l)(next_component_index l \<mapsto> e),
                  next_component_index := next_component_index l + 1 \<rparr>)"
  using fresh by (simp add: ComponentList_Insert_def packed_inc [OF p])

lemma Insert_packed:
  assumes "packed l" and "ComponentList_Insert l e c = Inr l'"
  shows "packed l'"
proof -
  from assms(2) have fresh: "entity_to_component_index l e = None"
    by (auto simp: ComponentList_Insert_def split: if_splits)
  then have "e \<notin> dom (entity_to_component_index l)" by (simp add: domIff)
  from Insert_packed_result [OF assms(1) this] assms(2)
  have l': "l' = l\<lparr> components := (components l)(next_component_index l := c),
                  entity_to_component_index :=
                    (entity_to_component_index l)(e \<mapsto> next_component_index l),
                  component_index_to_entity :=
                    (component_index_to_entity l)(next_component_index l \<mapsto> e),
                  next_component_index := next_component_index l + 1 \<rparr>"
    by simp
  from assms(1) have d: "dom (component_index_to_entity l) = {0 ..< next_component_index l}"
    and inv: "\<And>e i. (entity_to_component_index l e = Some i) = (component_index_to_entity l i = Some e)"
    by (simp_all add: packed_def)
  have free: "component_index_to_entity l (next_component_index l) = None"
    using d by (metis atLeastLessThan_iff domIff less_irrefl)
  have unowned: "component_index_to_entity l i \<noteq> Some e" for i
    using inv [of e i] fresh by simp
  show ?thesis
    unfolding packed_def l' using d inv fresh free unowned
    by (auto simp: atLeast0_lessThan_Suc)
qed

text \<open>What Remove computes on a packed store.\<close>

lemma Remove_packed_result:
  assumes p: "packed l" and r: "entity_to_component_index l e = Some i"
  shows "\<exists>le. component_index_to_entity l (next_component_index l - 1) = Some le \<and>
           0 < next_component_index l \<and> i < next_component_index l \<and>
           ComponentList_Remove l e =
             Inr \<lparr> next_component_index = next_component_index l - 1,
                   components = (components l)(i := components l (next_component_index l - 1)),
                   entity_to_component_index = ((entity_to_component_index l)(le \<mapsto> i))(e := None),
                   component_index_to_entity =
                     ((component_index_to_entity l)(i \<mapsto> le))(next_component_index l - 1 := None) \<rparr>"
proof -
  from p have d: "dom (component_index_to_entity l) = {0 ..< next_component_index l}"
    and inv: "\<And>e i. (entity_to_component_index l e = Some i) = (component_index_to_entity l i = Some e)"
    by (simp_all add: packed_def)
  from r inv have "component_index_to_entity l i = Some e" by simp
  then have "i \<in> dom (component_index_to_entity l)" by blast
  with d have i: "i < next_component_index l" by simp
  then have pos: "0 < next_component_index l" by simp
  then have "next_component_index l - 1 \<in> dom (component_index_to_entity l)"
    using d by simp
  then obtain le where l: "component_index_to_entity l (next_component_index l - 1) = Some le"
    by blast
  have "ComponentList_Remove l e =
             Inr \<lparr> next_component_index = next_component_index l - 1,
                   components = (components l)(i := components l (next_component_index l - 1)),
                   entity_to_component_index = ((entity_to_component_index l)(le \<mapsto> i))(e := None),
                   component_index_to_entity =
                     ((component_index_to_entity l)(i \<mapsto> le))(next_component_index l - 1 := None) \<rparr>"
    using r l i pos by (simp add: ComponentList_Remove_def map_index_def size_t_dec_def Let_def domI)
  with l pos i show ?thesis by blast
qed

lemma Remove_packed:
  assumes p: "packed l" and "ComponentList_Remove l e = Inr l'"
  shows "packed l'"
proof -
  from assms(2) obtain i where r: "entity_to_component_index l e = Some i"
    by (auto simp: ComponentList_Remove_def split: if_splits)
  from Remove_packed_result [OF p r] assms(2) obtain le where
    l: "component_index_to_entity l (next_component_index l - 1) = Some le"
    and pos: "0 < next_component_index l" and i: "i < next_component_index l"
    and l': "l' = \<lparr> next_component_index = next_component_index l - 1,
                   components = (components l)(i := components l (next_component_index l - 1)),
                   entity_to_component_index = ((entity_to_component_index l)(le \<mapsto> i))(e := None),
                   component_index_to_entity =
                     ((component_index_to_entity l)(i \<mapsto> le))(next_component_index l - 1 := None) \<rparr>"
    by auto
  from p have d: "dom (component_index_to_entity l) = {0 ..< next_component_index l}"
    and inv: "\<And>e i. (entity_to_component_index l e = Some i) = (component_index_to_entity l i = Some e)"
    by (simp_all add: packed_def)
  have dom': "dom (component_index_to_entity l') = {0 ..< next_component_index l - 1}"
    using d i pos unfolding l' by auto
  have inv': "(entity_to_component_index l' e' = Some j) = (component_index_to_entity l' j = Some e')"
    for e' j
    unfolding l' using inv r l by (auto; metis option.inject)
  show ?thesis
    unfolding packed_def using dom' inv' by (simp add: l')
qed

lemma store_step_packed: "packed l \<Longrightarrow> store_step l x = Inr l' \<Longrightarrow> packed l'"
  by (cases x) (auto intro: Insert_packed Remove_packed)

lemma store_step_count:
  assumes "packed l" and "store_step l x = Inr l'"
  shows "next_component_index l' + (if is_Insert_op x then 0 else 1) =
         next_component_index l + (if is_Insert_op x then 1 else 0)"
proof (cases x)
  case (Insert_op e c)
  with assms(2) show ?thesis
    by (auto simp: ComponentList_Insert_def packed_inc [OF assms(1)] split: if_splits)
next
  case (Remove_op e)
  with assms(2) obtain i where r: "entity_to_component_index l e = Some i"
    by (auto simp: ComponentList_Remove_def split: if_splits)
  from Remove_packed_result [OF assms(1) r] assms(2) Remove_op show ?thesis
    by auto
qed

lemma store_run_packed:
  "packed l \<Longrightarrow> store_run l xs = (r, n, m) \<Longrightarrow>
     packed r \<and> next_component_index r + m = next_component_index l + n"
proof (induction xs arbitrary: l r n m)
  case Nil
  then show ?case by simp
next
  case (Cons x xs)
  show ?case
  proof (cases "store_step l x")
    case (Inl err)
    with Cons.prems have "store_run l xs = (r, n, m)" by simp
    with Cons.IH [OF Cons.prems(1)] show ?thesis by simp
  next
    case (Inr l')
    obtain r' n' m' where run': "store_run l' xs = (r', n', m')"
      by (cases "store_run l' xs") auto
    have p': "packed l'" using store_step_packed [OF Cons.prems(1) Inr] .
    from Cons.IH [OF p' run'] have ih: "packed r'"
      "next_component_index r' + m' = next_component_index l' + n'" by simp_all
    from Cons.prems(2) Inr run' have res: "r = r'"
      "n = (if is_Insert_op x then n' + 1 else n')" "m = (if is_Insert_op x then m' else m' + 1)"
      by (auto split: if_splits)
    from store_step_count [OF Cons.prems(1) Inr] ih res show ?thesis
      by (auto split: if_splits)
  qed
qed






lemma Insert_into_full_store:
  assumes p: "packed l" and full: "next_component_index l = kMaxEntities"
    and fresh: "e \<notin> dom (entity_to_component_index l)"
  shows "\<exists>l'. ComponentList_Insert l e c = Inr l' \<and> components l' kMaxEntities = c \<and>
           next_component_index l' = kMaxEntities + 1"
  using Insert_packed_result [OF p fresh, of c] full by simp





text \<open>
  C7. In a packed store, \<^verbatim>\<open>Remove\<close> of an entity \<open>e\<close> whose slot \<open>i\<close> is not the last
  one (so the store holds at least two entities) succeeds; it copies the value of the last
  occupied slot into slot \<open>i\<close>, maps the entity \<open>le\<close> that owned the last slot to
  \<open>i\<close>, forgets \<open>e\<close>, and lowers the count by one; \<^verbatim>\<open>Get\<close> of the relocated
  entity returns the same value after the removal as before.
\<close>

theorem Remove_relocates_last:
  assumes "packed l"
    and "entity_to_component_index l e = Some i"
    and "i \<noteq> next_component_index l - 1"
  shows "\<exists>l' le.
           2 \<le> next_component_index l \<and>
           component_index_to_entity l (next_component_index l - 1) = Some le \<and> le \<noteq> e \<and>
           ComponentList_Remove l e = Inr l' \<and>
           components l' i = components l (next_component_index l - 1) \<and>
           entity_to_component_index l' le = Some i \<and>
           component_index_to_entity l' i = Some le \<and>
           entity_to_component_index l' e = None \<and>
           next_component_index l' = next_component_index l - 1 \<and>
           ComponentList_Get l le = Inr (components l (next_component_index l - 1)) \<and>
           ComponentList_Get l' le = ComponentList_Get l le"
proof -
  from Remove_packed_result [OF assms(1,2)] obtain le where
    l: "component_index_to_entity l (next_component_index l - 1) = Some le"
    and pos: "0 < next_component_index l" and i: "i < next_component_index l"
    and rm: "ComponentList_Remove l e =
             Inr \<lparr> next_component_index = next_component_index l - 1,
                   components = (components l)(i := components l (next_component_index l - 1)),
                   entity_to_component_index = ((entity_to_component_index l)(le \<mapsto> i))(e := None),
                   component_index_to_entity =
                     ((component_index_to_entity l)(i \<mapsto> le))(next_component_index l - 1 := None) \<rparr>"
    by blast
  from assms(1) have
    inv: "\<And>e i. (entity_to_component_index l e = Some i) = (component_index_to_entity l i = Some e)"
    by (simp add: packed_def)
  from l inv have le_slot: "entity_to_component_index l le = Some (next_component_index l - 1)"
    by simp
  with assms(2,3) have ne: "le \<noteq> e" by auto
  from i assms(3) have two: "2 \<le> next_component_index l" by arith
  have get: "ComponentList_Get l le = Inr (components l (next_component_index l - 1))"
    using le_slot by (simp add: ComponentList_Get_def map_index_def domI)
  let ?l' = "\<lparr> next_component_index = next_component_index l - 1,
                   components = (components l)(i := components l (next_component_index l - 1)),
                   entity_to_component_index = ((entity_to_component_index l)(le \<mapsto> i))(e := None),
                   component_index_to_entity =
                     ((component_index_to_entity l)(i \<mapsto> le))(next_component_index l - 1 := None) \<rparr>"
  have get': "ComponentList_Get ?l' le = Inr (components l (next_component_index l - 1))"
    using ne by (simp add: ComponentList_Get_def map_index_def)
  have "components ?l' i = components l (next_component_index l - 1)"
    "entity_to_component_index ?l' le = Some i"
    "component_index_to_entity ?l' i = Some le"
    "entity_to_component_index ?l' e = None"
    "next_component_index ?l' = next_component_index l - 1"
    using ne assms(3) by simp_all
  with two l ne rm get get' show ?thesis by (metis (no_types, lifting))
qed

theorem Remove_relocates_last_witness:
  "packed two_entities \<and>
   entity_to_component_index two_entities 1 = Some 0 \<and>
   0 \<noteq> next_component_index two_entities - 1 \<and>
   ComponentList_Get two_entities 2 = Inr 20 \<and>
   (\<exists>l'. ComponentList_Remove two_entities 1 = Inr l' \<and>
         entity_to_component_index l' 2 = Some 0 \<and>
         next_component_index l' = 1 \<and>
         ComponentList_Get l' 2 = Inr 20)"
proof -
  have p: "packed two_entities"
    unfolding two_entities_def
    using store_run_packed [OF packed_new, of "[Insert_op 1 10, Insert_op 2 20]"]
    by (metis prod.collapse)
  have e: "entity_to_component_index two_entities 1 = Some 0"
    by (simp add: two_entities_def ComponentList_new_def ComponentList_Insert_def size_t_inc_def)
  have n: "next_component_index two_entities = 2"
    by (simp add: two_entities_def ComponentList_new_def ComponentList_Insert_def size_t_inc_def)
  have v: "components two_entities 1 = 20"
    by (simp add: two_entities_def ComponentList_new_def ComponentList_Insert_def size_t_inc_def)
  have c: "component_index_to_entity two_entities 1 = Some 2"
    by (simp add: two_entities_def ComponentList_new_def ComponentList_Insert_def size_t_inc_def)
  have ne: "0 \<noteq> next_component_index two_entities - 1"
    by (simp add: n)
  from Remove_relocates_last [OF p e ne] p e ne n v c show ?thesis
    by (auto simp: n)
qed

lemma EntityWasDestroyed_systems_length:
  "length (EntityWasDestroyed_systems ss e) = length ss"
  by (induction ss e rule: EntityWasDestroyed_systems.induct) simp_all

lemma EntityWasDestroyed_systems_nth:
  "i < length ss \<Longrightarrow>
   EntityWasDestroyed_systems ss e ! i =
     (fst (ss ! i), (snd (ss ! i))\<lparr> entities := entities (snd (ss ! i)) - {e} \<rparr>)"
proof (induction ss e arbitrary: i rule: EntityWasDestroyed_systems.induct)
  case (1 entity)
  then show ?case by simp
next
  case (2 name system rest entity)
  then show ?case by (cases i) simp_all
qed

lemma EntityWasDestroyed_systems_absent:
  "\<forall>(name, system) \<in> set ss. e \<notin> entities system \<Longrightarrow> EntityWasDestroyed_systems ss e = ss"
  by (induction ss e rule: EntityWasDestroyed_systems.induct) simp_all

lemma EntityWasDestroyed_lists_absent:
  "\<forall>(name, l) \<in> set ls. e \<notin> dom (entity_to_component_index l) \<Longrightarrow>
   EntityWasDestroyed_lists ls e = (None, ls)"
  by (induction ls e rule: EntityWasDestroyed_lists.induct)
     (simp_all add: ComponentList_EntityWasDestroyed_def)

text \<open>
  C8. The \<^verbatim>\<open>EntityWasDestroyed\<close> hook of a store that does not hold the entity returns
  normally and leaves the store as it is, and so does the component manager's broadcast
  over stores none of which holds it. The system manager's broadcast never throws, keeps
  the systems and their signatures, and leaves every system that does not hold the entity
  unchanged; when no system holds it the whole system manager is unchanged.
\<close>

theorem EntityWasDestroyed_absent_noop:
  "(entity \<notin> dom (entity_to_component_index l) \<longrightarrow>
      ComponentList_EntityWasDestroyed l entity = Inr l) \<and>
   ((\<forall>(name, l) \<in> set (component_lists cm). entity \<notin> dom (entity_to_component_index l)) \<longrightarrow>
      ComponentManager_EntityWasDestroyed cm entity = (None, cm)) \<and>
   length (systems (SystemManager_EntityWasDestroyed sm entity)) = length (systems sm) \<and>
   system_signatures (SystemManager_EntityWasDestroyed sm entity) = system_signatures sm \<and>
   (\<forall>i < length (systems sm). entity \<notin> entities (snd (systems sm ! i)) \<longrightarrow>
      systems (SystemManager_EntityWasDestroyed sm entity) ! i = systems sm ! i) \<and>
   ((\<forall>(name, system) \<in> set (systems sm). entity \<notin> entities system) \<longrightarrow>
      SystemManager_EntityWasDestroyed sm entity = sm)"
proof (intro conjI)
  show "entity \<notin> dom (entity_to_component_index l) \<longrightarrow>
      ComponentList_EntityWasDestroyed l entity = Inr l"
    by (simp add: ComponentList_EntityWasDestroyed_def)
  show "(\<forall>(name, l) \<in> set (component_lists cm). entity \<notin> dom (entity_to_component_index l)) \<longrightarrow>
      ComponentManager_EntityWasDestroyed cm entity = (None, cm)"
    by (simp add: ComponentManager_EntityWasDestroyed_def EntityWasDestroyed_lists_absent)
  show "length (systems (SystemManager_EntityWasDestroyed sm entity)) = length (systems sm)"
    by (simp add: SystemManager_EntityWasDestroyed_def EntityWasDestroyed_systems_length)
  show "system_signatures (SystemManager_EntityWasDestroyed sm entity) = system_signatures sm"
    by (simp add: SystemManager_EntityWasDestroyed_def)
  show "\<forall>i < length (systems sm). entity \<notin> entities (snd (systems sm ! i)) \<longrightarrow>
      systems (SystemManager_EntityWasDestroyed sm entity) ! i = systems sm ! i"
    by (simp add: SystemManager_EntityWasDestroyed_def EntityWasDestroyed_systems_nth)
  show "(\<forall>(name, system) \<in> set (systems sm). entity \<notin> entities system) \<longrightarrow>
      SystemManager_EntityWasDestroyed sm entity = sm"
    by (simp add: SystemManager_EntityWasDestroyed_def EntityWasDestroyed_systems_absent)
qed

theorem EntityWasDestroyed_absent_noop_witness:
  "7 \<notin> dom (entity_to_component_index two_entities) \<and>
   ComponentList_EntityWasDestroyed two_entities 7 = Inr two_entities \<and>
   map (\<lambda>(name, system). (name, 7 \<in> entities system)) (systems one_system) =
     [(''Physics'', False)] \<and>
   SystemManager_EntityWasDestroyed one_system 7 = one_system"
proof -
  have a: "7 \<notin> dom (entity_to_component_index two_entities)"
    by (simp add: two_entities_def ComponentList_new_def ComponentList_Insert_def size_t_inc_def)
  have b: "\<forall>(name, system) \<in> set (systems one_system). 7 \<notin> entities system"
    by (simp add: one_system_def)
  have c: "map (\<lambda>(name, system). (name, 7 \<in> entities system)) (systems one_system) =
     [(''Physics'', False)]"
    by (simp add: one_system_def)
  from EntityWasDestroyed_absent_noop [where entity = 7 and l = two_entities and sm = one_system]
    a b c show ?thesis by blast
qed

section \<open>The entity pool\<close>

declare EntityManager_seed.simps [simp del]

lemma unat_Entity_succ:
  fixes entity :: Entity
  assumes "unat entity < kMaxEntities"
  shows "unat (entity + 1) = unat entity + 1"
proof -
  from assms have "unat entity + unat (1 :: Entity) < 2 ^ LENGTH(32)"
    by (simp add: kMaxEntities_def)
  then show ?thesis
    by (simp add: unat_add_lem [THEN iffD1])
qed

lemma EntityManager_seed_from:
  "unat entity \<le> kMaxEntities \<Longrightarrow>
   EntityManager_seed entity q = q @ map of_nat [unat entity ..< kMaxEntities]"
proof (induction entity q rule: EntityManager_seed.induct)
  case (1 entity q)
  show ?case
  proof (cases "unat entity < kMaxEntities")
    case True
    then have s: "unat (entity + 1) = unat entity + 1" by (rule unat_Entity_succ)
    with True have "unat (entity + 1) \<le> kMaxEntities" by simp
    from "1.IH" [OF True this]
    have "EntityManager_seed (entity + 1) (q @ [entity]) =
            (q @ [entity]) @ map of_nat [unat entity + 1 ..< kMaxEntities]"
      by (simp add: s)
    moreover have "[unat entity ..< kMaxEntities] = unat entity # [unat entity + 1 ..< kMaxEntities]"
      using True by (simp add: upt_conv_Cons)
    ultimately show ?thesis
      using True by (subst EntityManager_seed.simps) simp
  next
    case False
    with "1.prems" have "unat entity = kMaxEntities" by simp
    then show ?thesis
      by (subst EntityManager_seed.simps) simp
  qed
qed

lemma available_entities_new:
  "available_entities EntityManager_new = map of_nat [0 ..< kMaxEntities]"
  using EntityManager_seed_from [of 0 "[]"] by (simp add: EntityManager_new_def)

lemma create_entities_pool:
  "fst (create_entities n eng) =
     map Inr (take n (available_entities (entity_manager eng))) @
     replicate (n - length (available_entities (entity_manager eng))) (Inl CapacityExceeded) \<and>
   available_entities (entity_manager (snd (create_entities n eng))) =
     drop n (available_entities (entity_manager eng))"
proof (induction n arbitrary: eng)
  case 0
  then show ?case by simp
next
  case (Suc n)
  show ?case
  proof (cases "available_entities (entity_manager eng)")
    case Nil
    then have "Engine_CreateEntity eng = Inl CapacityExceeded"
      by (simp add: Engine_CreateEntity_def EntityManager_CreateEntity_def)
    with Suc [of eng] Nil show ?thesis
      by (simp add: split_beta)
  next
    case (Cons entity rest)
    then have "Engine_CreateEntity eng =
        Inr (entity, eng\<lparr> entity_manager := (entity_manager eng)\<lparr> available_entities := rest \<rparr> \<rparr>)"
      by (simp add: Engine_CreateEntity_def EntityManager_CreateEntity_def)
    with Suc [of "eng\<lparr> entity_manager := (entity_manager eng)\<lparr> available_entities := rest \<rparr> \<rparr>"] Cons
    show ?thesis
      by (simp add: split_beta)
  qed
qed

text \<open>
  C6. On a fresh engine, \<open>kMaxEntities + 1\<close> calls of \<^verbatim>\<open>CreateEntity\<close> in a row: the
  first \<open>kMaxEntities\<close> calls succeed (returning the identifiers \<open>0, 1, \<dots>\<close> in
  order), after them the pool is empty, and the next call, the first to fail, fails with
  \<open>CapacityExceeded\<close>.
\<close>

theorem capacity_boundary:
  "fst (create_entities (kMaxEntities + 1) (Engine_new :: 'c Engine)) =
     map (\<lambda>i. Inr (of_nat i)) [0 ..< kMaxEntities] @ [Inl CapacityExceeded] \<and>
   available_entities (entity_manager (snd (create_entities kMaxEntities (Engine_new :: 'c Engine)))) = []"
proof -
  have q: "available_entities (entity_manager (Engine_new :: 'c Engine)) = map of_nat [0 ..< kMaxEntities]"
    by (simp add: Engine_new_def available_entities_new)
  show ?thesis
    using create_entities_pool [of "kMaxEntities + 1" "Engine_new :: 'c Engine"]
      create_entities_pool [of kMaxEntities "Engine_new :: 'c Engine"]
    by (simp add: q comp_def del: create_entities.simps)
qed

lemma pool_in_range_new: "pool_in_range EntityManager_new"
proof -
  have "unat (of_nat i :: Entity) < kMaxEntities" if "i < kMaxEntities" for i
  proof -
    from that have "i < 2 ^ LENGTH(32)" by (simp add: kMaxEntities_def)
    then have "unat (of_nat i :: Entity) = i" by (simp add: unat_of_nat)
    with that show ?thesis by simp
  qed
  then show ?thesis
    by (auto simp: pool_in_range_def available_entities_new)
qed

lemma pool_in_range_DestroyEntity:
  "pool_in_range em \<Longrightarrow> EntityManager_DestroyEntity em entity = Inr em' \<Longrightarrow> pool_in_range em'"
  by (auto simp: pool_in_range_def EntityManager_DestroyEntity_def CheckEntityOutOfBound_def
      split: if_splits)

text \<open>
  On a fresh entity manager no identifier has been issued, yet \<^verbatim>\<open>DestroyEntity(5)\<close> does
  not fail: the only check is the range check.
\<close>

theorem DestroyEntity_unissued_counterexample:
  "EntityManager_DestroyEntity EntityManager_new 5 \<noteq> Inl OutOfRange \<and>
   fst (Engine_DestroyEntity (Engine_new :: nat Engine) 5) = None"
  by (simp add: EntityManager_DestroyEntity_def CheckEntityOutOfBound_def kMaxEntities_def
      Engine_DestroyEntity_def Engine_new_def ComponentManager_EntityWasDestroyed_def
      ComponentManager_new_def)

text \<open>
  C4, as the code has it. \<^verbatim>\<open>DestroyEntity\<close> fails with \<open>OutOfRange\<close> exactly for the
  identifiers \<open>\<ge> kMaxEntities\<close>. For every identifier below \<open>kMaxEntities\<close>, issued or
  not, it succeeds, resets that entity's signature to empty and appends the identifier to
  the pool. Every identifier that \<^verbatim>\<open>CreateEntity\<close> hands out is below
  \<open>kMaxEntities\<close> (the pool holds only such identifiers), so this covers every live
  entity.
\<close>

theorem DestroyEntity_range_check:
  "(kMaxEntities \<le> unat entity \<longrightarrow> EntityManager_DestroyEntity em entity = Inl OutOfRange) \<and>
   (unat entity < kMaxEntities \<longrightarrow>
      EntityManager_DestroyEntity em entity =
        Inr (em\<lparr> entity_signatures := (entity_signatures em)(entity := 0),
                 available_entities := available_entities em @ [entity] \<rparr>)) \<and>
   (pool_in_range em \<and> EntityManager_CreateEntity em = Inr (entity, em') \<longrightarrow>
      unat entity < kMaxEntities \<and> pool_in_range em')"
  by (auto simp: EntityManager_DestroyEntity_def CheckEntityOutOfBound_def pool_in_range_def
      EntityManager_CreateEntity_def split: list.splits)

theorem DestroyEntity_range_check_witness:
  "EntityManager_DestroyEntity EntityManager_new 70000 = Inl OutOfRange \<and>
   EntityManager_DestroyEntity EntityManager_new 5 =
     Inr (EntityManager_new\<lparr> entity_signatures := (entity_signatures EntityManager_new)(5 := 0),
            available_entities := available_entities EntityManager_new @ [5] \<rparr>) \<and>
   (\<exists>em'. EntityManager_CreateEntity EntityManager_new = Inr (0, em') \<and> pool_in_range em')"
proof -
  have a: "kMaxEntities \<le> unat (70000 :: Entity)" by (simp add: kMaxEntities_def)
  have b: "unat (5 :: Entity) < kMaxEntities" by (simp add: kMaxEntities_def)
  have "0 < kMaxEntities" by (simp add: kMaxEntities_def)
  then have "[0 ..< kMaxEntities] = 0 # [1 ..< kMaxEntities]"
    using upt_conv_Cons [of 0 kMaxEntities] by (simp only: One_nat_def)
  then have c: "EntityManager_CreateEntity EntityManager_new =
      Inr (0, EntityManager_new\<lparr> available_entities := map of_nat [1 ..< kMaxEntities] \<rparr>)"
    by (simp add: EntityManager_CreateEntity_def available_entities_new)
  from DestroyEntity_range_check [of 70000 EntityManager_new] a
    DestroyEntity_range_check [of 5 EntityManager_new] b
    DestroyEntity_range_check [of 0 EntityManager_new
      "EntityManager_new\<lparr> available_entities := map of_nat [1 ..< kMaxEntities] \<rparr>"]
    pool_in_range_new c
  show ?thesis by blast
qed

section \<open>A small engine: one system, one entity with one component\<close>

lemmas demo_defs =
  demo_engine_def demo_registered_def Engine_new_def SystemManager_new_def ComponentManager_new_def
  EntityManager_new_def Engine_RegisterSystem_default_def SystemManager_RegisterSystem_default_def
  SystemManager_RegisterSystem_def Engine_AddComponent_def ComponentManager_AddComponent_def
  ComponentManager_RegisterComponent_def ComponentManager_GetComponentList_def
  ComponentList_new_def ComponentList_Insert_def size_t_inc_def set_component_bit_def
  ComponentManager_GetComponentType_def EntityManager_GetSignature_def
  EntityManager_SetSignature_def CheckEntityOutOfBound_def bitset_set_def
  SystemManager_EntitySignatureChanged_def map_index_def kMaxEntities_def kMaxComponents_def

lemma demo_engine_systems:
  "systems (system_manager demo_engine) = [(''Physics'', \<lparr> entities = {1} \<rparr>)]"
  by (simp add: demo_defs)

lemma demo_engine_added:
  "Engine_AddComponent demo_registered ''Position'' 1 10 = (None, demo_engine)"
proof -
  have "fst (Engine_AddComponent demo_registered ''Position'' 1 10) = None"
    by (simp add: demo_defs)
  then show ?thesis
    by (simp add: demo_engine_def prod_eq_iff)
qed

lemma demo_engine_signature:
  "entity_signatures (entity_manager demo_engine) 1 = 1"
  by (simp add: demo_defs)

section \<open>The system registry\<close>

lemma map_index_default_stable:
  "fst (map_index (snd (map_index m k)) k') = fst (map_index m k')"
  by (simp add: map_index_def split: option.splits)

text \<open>The broadcast loop in closed form.\<close>

lemma EntitySignatureChanged_systems_result:
  "fst (EntitySignatureChanged_systems ss sigs entity sg) =
     map (\<lambda>(type, system).
            (type, system\<lparr> entities :=
                     (if (sg AND fst (map_index sigs type)) = fst (map_index sigs type)
                      then insert entity (entities system)
                      else entities system - {entity}) \<rparr>)) ss \<and>
   (\<forall>k. fst (map_index (snd (EntitySignatureChanged_systems ss sigs entity sg)) k) =
        fst (map_index sigs k))"
proof (induction ss arbitrary: sigs)
  case Nil
  then show ?case by simp
next
  case (Cons x ss)
  obtain type system where x: "x = (type, system)" by (cases x)
  let ?sigs1 = "snd (map_index sigs type)"
  from Cons.IH [of ?sigs1] show ?case
    by (simp add: x split_beta Let_def map_index_default_stable)
qed

lemma SystemManager_EntitySignatureChanged_systems:
  "systems (SystemManager_EntitySignatureChanged sm entity sg) =
     map (\<lambda>(type, system).
            (type, system\<lparr> entities :=
                     (if (sg AND system_signature_of sm type) = system_signature_of sm type
                      then insert entity (entities system)
                      else entities system - {entity}) \<rparr>)) (systems sm)"
  using EntitySignatureChanged_systems_result [of "systems sm" "system_signatures sm" entity sg]
  by (simp add: SystemManager_EntitySignatureChanged_def system_signature_of_def split_beta)

lemma SystemManager_EntitySignatureChanged_signature:
  "system_signature_of (SystemManager_EntitySignatureChanged sm entity sg) k =
     system_signature_of sm k"
  using EntitySignatureChanged_systems_result [of "systems sm" "system_signatures sm" entity sg]
  by (simp add: SystemManager_EntitySignatureChanged_def system_signature_of_def split_beta)

lemma EntityWasDestroyed_systems_map:
  "EntityWasDestroyed_systems ss e =
     map (\<lambda>(type, system). (type, system\<lparr> entities := entities system - {e} \<rparr>)) ss"
  by (induction ss e rule: EntityWasDestroyed_systems.induct) simp_all

text \<open>
  C9. For a registered system, \<^verbatim>\<open>SetSystemSignature\<close> succeeds and only records the
  signature: the systems and their entity sets are as before (and so are the entity and
  component managers), whether or not the members are compatible with the new signature.
  The membership of an entity in a system's set is not changed either by the
  \<^verbatim>\<open>EntitySignatureChanged\<close> and \<^verbatim>\<open>EntityWasDestroyed\<close> broadcasts for another
  entity.
\<close>

theorem SetSystemSignature_keeps_entity_sets:
  "(system_type_name \<in> fst ` set (systems sm) \<longrightarrow>
      SystemManager_SetSystemSignature sm system_type_name signature =
        Inr (sm\<lparr> system_signatures := (system_signatures sm)(system_type_name \<mapsto> signature) \<rparr>)) \<and>
   (SystemManager_SetSystemSignature sm system_type_name signature = Inr sm' \<longrightarrow>
      systems sm' = systems sm \<and> system_signature_of sm' system_type_name = signature) \<and>
   (Engine_SetSystemSignature eng system_type_name signature = Inr eng' \<longrightarrow>
      systems (system_manager eng') = systems (system_manager eng) \<and>
      entity_manager eng' = entity_manager eng \<and>
      component_manager eng' = component_manager eng) \<and>
   (other \<noteq> entity \<longrightarrow>
      map (\<lambda>(type, system). (type, entity \<in> entities system))
          (systems (SystemManager_EntitySignatureChanged sm other sg)) =
      map (\<lambda>(type, system). (type, entity \<in> entities system)) (systems sm) \<and>
      map (\<lambda>(type, system). (type, entity \<in> entities system))
          (systems (SystemManager_EntityWasDestroyed sm other)) =
      map (\<lambda>(type, system). (type, entity \<in> entities system)) (systems sm))"
proof (intro conjI impI)
  assume "system_type_name \<in> fst ` set (systems sm)"
  then show "SystemManager_SetSystemSignature sm system_type_name signature =
        Inr (sm\<lparr> system_signatures := (system_signatures sm)(system_type_name \<mapsto> signature) \<rparr>)"
    by (simp add: SystemManager_SetSystemSignature_def dom_map_of_conv_image_fst)
next
  assume a: "SystemManager_SetSystemSignature sm system_type_name signature = Inr sm'"
  then show "systems sm' = systems sm"
    by (auto simp: SystemManager_SetSystemSignature_def split: if_splits)
  from a show "system_signature_of sm' system_type_name = signature"
    by (auto simp: SystemManager_SetSystemSignature_def system_signature_of_def map_index_def
        split: if_splits)
next
  assume a: "Engine_SetSystemSignature eng system_type_name signature = Inr eng'"
  then show "systems (system_manager eng') = systems (system_manager eng)"
    and "entity_manager eng' = entity_manager eng"
    and "component_manager eng' = component_manager eng"
    by (auto simp: Engine_SetSystemSignature_def SystemManager_SetSystemSignature_def
        split: if_splits sum.splits)
next
  assume "other \<noteq> entity"
  then show "map (\<lambda>(type, system). (type, entity \<in> entities system))
          (systems (SystemManager_EntitySignatureChanged sm other sg)) =
      map (\<lambda>(type, system). (type, entity \<in> entities system)) (systems sm)"
    by (simp add: SystemManager_EntitySignatureChanged_systems split_beta comp_def)
next
  assume "other \<noteq> entity"
  then show "map (\<lambda>(type, system). (type, entity \<in> entities system))
          (systems (SystemManager_EntityWasDestroyed sm other)) =
      map (\<lambda>(type, system). (type, entity \<in> entities system)) (systems sm)"
    by (simp add: SystemManager_EntityWasDestroyed_def EntityWasDestroyed_systems_map
        split_beta comp_def)
qed

text \<open>
  The system \<open>Physics\<close> admitted entity 1 while it had no signature; after its
  signature is set to bit 1, which entity 1 lacks, entity 1 is still a member.
\<close>

theorem SetSystemSignature_keeps_entity_sets_witness:
  "''Physics'' \<in> fst ` set (systems (system_manager demo_engine)) \<and>
   (\<exists>eng'. Engine_SetSystemSignature demo_engine ''Physics'' 2 = Inr eng' \<and>
      systems (system_manager eng') = [(''Physics'', \<lparr> entities = {1} \<rparr>)] \<and>
      system_signature_of (system_manager eng') ''Physics'' = 2 \<and>
      entity_signatures (entity_manager eng') 1 = 1 \<and>
      (1 :: Signature) AND 2 \<noteq> 2) \<and>
   map (\<lambda>(type, system). (type, (1 :: Entity) \<in> entities system))
       (systems (SystemManager_EntityWasDestroyed (system_manager demo_engine) 3)) =
     [(''Physics'', True)]"
proof -
  let ?sm = "system_manager demo_engine"
  let ?sm' = "?sm\<lparr> system_signatures := (system_signatures ?sm)(''Physics'' \<mapsto> 2) \<rparr>"
  let ?eng' = "demo_engine\<lparr> system_manager := ?sm' \<rparr>"
  have reg: "''Physics'' \<in> fst ` set (systems ?sm)"
    by (simp add: demo_engine_systems)
  note t = SetSystemSignature_keeps_entity_sets
    [where sm = ?sm and system_type_name = "''Physics''" and signature = 2 and sm' = ?sm'
       and eng = demo_engine and eng' = ?eng' and other = 3 and entity = 1]
  from t reg have set: "SystemManager_SetSystemSignature ?sm ''Physics'' 2 = Inr ?sm'"
    by blast
  then have eset: "Engine_SetSystemSignature demo_engine ''Physics'' 2 = Inr ?eng'"
    by (simp add: Engine_SetSystemSignature_def)
  have ne: "(3 :: Entity) \<noteq> 1" by simp
  from t set have "system_signature_of ?sm' ''Physics'' = 2" by blast
  moreover from t eset have "systems (system_manager ?eng') = systems ?sm"
    and "entity_manager ?eng' = entity_manager demo_engine" by blast+
  moreover from t ne have
    "map (\<lambda>(type, system). (type, (1 :: Entity) \<in> entities system))
       (systems (SystemManager_EntityWasDestroyed ?sm 3)) =
     map (\<lambda>(type, system). (type, (1 :: Entity) \<in> entities system)) (systems ?sm)"
    by blast
  moreover have "(1 :: Signature) AND 2 \<noteq> 2" by simp
  ultimately show ?thesis
    using reg eset by (simp add: demo_engine_systems demo_engine_signature)
qed

text \<open>
  C10. For a component type that is not registered, \<^verbatim>\<open>HasComponent\<close> does not return
  \<open>false\<close>: whatever the entity, it fails with \<open>UnregisteredType\<close>, because the type's
  bit is looked up before the entity's signature is read.
\<close>

theorem HasComponent_unregistered:
  assumes "component_types (component_manager eng) component_type_name = None"
  shows "Engine_HasComponent eng component_type_name entity = Inl UnregisteredType \<and>
         Engine_HasComponent eng component_type_name entity \<noteq> Inr False"
  using assms by (simp add: Engine_HasComponent_def ComponentManager_GetComponentType_def)

theorem HasComponent_unregistered_witness:
  "component_types (component_manager (Engine_new :: nat Engine)) ''float'' = None \<and>
   Engine_HasComponent (Engine_new :: nat Engine) ''float'' 0 = Inl UnregisteredType"
proof -
  have a: "component_types (component_manager (Engine_new :: nat Engine)) ''float'' = None"
    by (simp add: Engine_new_def ComponentManager_new_def)
  from HasComponent_unregistered [OF a, of 0] a show ?thesis by simp
qed

section \<open>Registering component types\<close>

lemma RegisterComponent_keeps:
  "component_types cm k = Some t \<Longrightarrow>
   component_types (ComponentManager_RegisterComponent cm name) k = Some t"
  by (auto simp: ComponentManager_RegisterComponent_def)

lemma register_components_keeps:
  "component_types cm k = Some t \<Longrightarrow> component_types (register_components cm names) k = Some t"
  unfolding register_components_def
  by (induction names arbitrary: cm) (simp_all add: RegisterComponent_keeps)

lemma register_components_fresh:
  assumes "distinct names" and "set names \<inter> dom (component_types cm) = {}"
  shows "(\<forall>i < length names.
            component_types (register_components cm names) (names ! i) =
              Some (next_component_type cm + of_nat i)) \<and>
         next_component_type (register_components cm names) =
           next_component_type cm + of_nat (length names) \<and>
         dom (component_types (register_components cm names)) =
           dom (component_types cm) \<union> set names"
  using assms
proof (induction names arbitrary: cm)
  case Nil
  then show ?case by (simp add: register_components_def)
next
  case (Cons x xs)
  let ?cm1 = "ComponentManager_RegisterComponent cm x"
  from Cons.prems have fresh: "x \<notin> dom (component_types cm)" by auto
  then have ct1: "component_types ?cm1 = (component_types cm)(x \<mapsto> next_component_type cm)"
    and n1: "next_component_type ?cm1 = next_component_type cm + 1"
    by (simp_all add: ComponentManager_RegisterComponent_def)
  from Cons.prems have d: "distinct xs" and "set xs \<inter> dom (component_types ?cm1) = {}"
    by (auto simp: ct1)
  from Cons.IH [OF this] have
    ih1: "\<And>i. i < length xs \<Longrightarrow> component_types (register_components ?cm1 xs) (xs ! i) =
              Some (next_component_type ?cm1 + of_nat i)"
    and ih2: "next_component_type (register_components ?cm1 xs) =
           next_component_type ?cm1 + of_nat (length xs)"
    and ih3: "dom (component_types (register_components ?cm1 xs)) =
           dom (component_types ?cm1) \<union> set xs"
    by simp_all
  have unfold: "register_components cm (x # xs) = register_components ?cm1 xs"
    by (simp add: register_components_def)
  have head: "component_types (register_components ?cm1 xs) x = Some (next_component_type cm)"
    by (rule register_components_keeps) (simp add: ct1)
  have "component_types (register_components cm (x # xs)) ((x # xs) ! i) =
              Some (next_component_type cm + of_nat i)" if "i < length (x # xs)" for i
  proof (cases i)
    case 0
    with head show ?thesis by (simp add: unfold)
  next
    case (Suc j)
    with that ih1 [of j] n1 show ?thesis by (simp add: unfold)
  qed
  moreover have "next_component_type (register_components cm (x # xs)) =
           next_component_type cm + of_nat (length (x # xs))"
    using ih2 n1 by (simp add: unfold)
  moreover have "dom (component_types (register_components cm (x # xs))) =
           dom (component_types cm) \<union> set (x # xs)"
    using ih3 by (auto simp: unfold ct1)
  ultimately show ?case by blast
qed

lemma distinct_type_names: "distinct (type_names n)"
  by (simp add: type_names_def distinct_map inj_on_def)

text \<open>
  C5 fails on the code. \<^verbatim>\<open>RegisterComponent\<close> has no bound: registering 65 distinct
  component types on a fresh component manager succeeds for all of them, the last one
  receives the component type 64, which is not a bit of a 64-bit signature
  (\<^verbatim>\<open>std::bitset::set\<close> throws on it).
\<close>

theorem register_65_component_types:
  "distinct (type_names 65) \<and> length (type_names 65) = 65 \<and>
   card (dom (component_types
     (register_components (ComponentManager_new :: nat ComponentManager) (type_names 65)))) = 65 \<and>
   component_types
     (register_components (ComponentManager_new :: nat ComponentManager) (type_names 65))
     (type_names 65 ! 64) = Some 64 \<and>
   \<not> unat (64 :: ComponentType) < kMaxComponents \<and>
   bitset_set 0 64 True = Inl BitsetOutOfRange"
proof -
  let ?cm = "ComponentManager_new :: nat ComponentManager"
  have len: "length (type_names 65) = 65" by (simp add: type_names_def)
  have e: "set (type_names 65) \<inter> dom (component_types ?cm) = {}"
    by (simp add: ComponentManager_new_def)
  note r = register_components_fresh [OF distinct_type_names e]
  from r have "component_types (register_components ?cm (type_names 65)) (type_names 65 ! 64) =
      Some (next_component_type ?cm + of_nat 64)"
    using len by simp
  then have a: "component_types (register_components ?cm (type_names 65)) (type_names 65 ! 64) = Some 64"
    by (simp add: ComponentManager_new_def)
  from r have "dom (component_types (register_components ?cm (type_names 65))) = set (type_names 65)"
    by (simp add: ComponentManager_new_def)
  then have c: "card (dom (component_types (register_components ?cm (type_names 65)))) = 65"
    using distinct_card [OF distinct_type_names [of 65]] len by simp
  have b: "\<not> unat (64 :: ComponentType) < kMaxComponents"
    by (simp add: kMaxComponents_def)
  have "bitset_set 0 64 True = Inl BitsetOutOfRange"
    by (simp add: bitset_set_def kMaxComponents_def)
  with a b c len distinct_type_names show ?thesis by blast
qed

section \<open>The facade keeps signatures and system sets consistent\<close>

lemma set_component_bit_success:
  assumes "set_component_bit eng T e v = (None, eng')"
  shows "system_manager eng' =
           SystemManager_EntitySignatureChanged (system_manager eng) e
             (entity_signatures (entity_manager eng') e) \<and>
         component_manager eng' = component_manager eng \<and>
         unat e < kMaxEntities"
  using assms
  by (auto simp: set_component_bit_def EntityManager_GetSignature_def
      EntityManager_SetSignature_def CheckEntityOutOfBound_def
      split: sum.splits if_splits)

lemma set_component_bit_failure:
  assumes "set_component_bit eng T e v = (Some err, eng')"
  shows "eng' = eng \<and> (err = UnregisteredType \<or> err = OutOfRange \<or> err = BitsetOutOfRange)"
  using assms
  by (auto simp: set_component_bit_def EntityManager_GetSignature_def
      EntityManager_SetSignature_def CheckEntityOutOfBound_def bitset_set_def
      ComponentManager_GetComponentType_def
      split: sum.splits if_splits option.splits)

lemma EntitySignatureChanged_consistent:
  assumes "(S, system) \<in> set (systems (SystemManager_EntitySignatureChanged sm e sg))"
  shows "(e \<in> entities system) =
         ((sg AND system_signature_of (SystemManager_EntitySignatureChanged sm e sg) S) =
          system_signature_of (SystemManager_EntitySignatureChanged sm e sg) S)"
  using assms
  by (auto simp: SystemManager_EntitySignatureChanged_systems
      SystemManager_EntitySignatureChanged_signature split: if_splits)

lemma EntitySignatureChanged_names:
  "map fst (systems (SystemManager_EntitySignatureChanged sm e sg)) = map fst (systems sm)"
  by (simp add: SystemManager_EntitySignatureChanged_systems split_beta comp_def)

lemma set_component_bit_consistent:
  assumes "set_component_bit eng T e v = (None, eng')"
  shows "map fst (systems (system_manager eng')) = map fst (systems (system_manager eng)) \<and>
         (\<forall>(S, system) \<in> set (systems (system_manager eng')).
            (e \<in> entities system) =
            ((entity_signatures (entity_manager eng') e AND system_signature_of (system_manager eng') S)
               = system_signature_of (system_manager eng') S))"
proof -
  from set_component_bit_success [OF assms]
  have sm: "system_manager eng' =
           SystemManager_EntitySignatureChanged (system_manager eng) e
             (entity_signatures (entity_manager eng') e)" by simp
  show ?thesis
    unfolding sm using EntitySignatureChanged_consistent EntitySignatureChanged_names
    by (auto simp del: split_paired_All)
qed

lemma Engine_DestroyEntity_success:
  assumes "Engine_DestroyEntity eng e = (None, eng')"
  shows "system_manager eng' = SystemManager_EntityWasDestroyed (system_manager eng) e \<and>
         entity_signatures (entity_manager eng') e = 0 \<and>
         available_entities (entity_manager eng') = available_entities (entity_manager eng) @ [e]"
  using assms
  by (auto simp: Engine_DestroyEntity_def EntityManager_DestroyEntity_def
      CheckEntityOutOfBound_def Let_def split: sum.splits if_splits prod.splits option.splits)

text \<open>
  A system registered without a signature has the empty signature, which every entity
  matches. After entity 1 is destroyed its signature is empty and it is in no set: for
  the system \<open>Physics\<close> the signature test holds and the membership does not.
\<close>

theorem DestroyEntity_unset_signature_counterexample:
  "Engine_AddComponent demo_registered ''Position'' 1 10 = (None, demo_engine) \<and>
   fst (Engine_DestroyEntity demo_engine 1) = None \<and>
   systems (system_manager (snd (Engine_DestroyEntity demo_engine 1))) =
     [(''Physics'', \<lparr> entities = {} \<rparr>)] \<and>
   (entity_signatures (entity_manager (snd (Engine_DestroyEntity demo_engine 1))) 1
      AND system_signature_of (system_manager (snd (Engine_DestroyEntity demo_engine 1))) ''Physics'')
     = system_signature_of (system_manager (snd (Engine_DestroyEntity demo_engine 1))) ''Physics''"
proof -
  let ?d = "Engine_DestroyEntity demo_engine 1"
  have f: "fst ?d = None"
    unfolding Engine_DestroyEntity_def
    by (simp add: EntityManager_DestroyEntity_def
        ComponentManager_EntityWasDestroyed_def ComponentList_EntityWasDestroyed_def
        ComponentList_Remove_def size_t_dec_def Let_def demo_defs)
  then have d: "?d = (None, snd ?d)"
    by (simp only: prod_eq_iff fst_conv snd_conv simp_thms)
  from Engine_DestroyEntity_success [OF d]
  have sm: "system_manager (snd ?d) = SystemManager_EntityWasDestroyed (system_manager demo_engine) 1"
    and sg: "entity_signatures (entity_manager (snd ?d)) 1 = 0"
    by simp_all
  have s: "systems (system_manager (snd ?d)) = [(''Physics'', \<lparr> entities = {} \<rparr>)]"
    by (simp add: sm SystemManager_EntityWasDestroyed_def demo_engine_systems)
  have "system_signature_of (system_manager demo_engine) ''Physics'' = 0"
    by (simp add: system_signature_of_def demo_defs)
  then have "system_signature_of (system_manager (snd ?d)) ''Physics'' = 0"
    unfolding sm by (simp add: SystemManager_EntityWasDestroyed_def system_signature_of_def)
  with sg have "(entity_signatures (entity_manager (snd ?d)) 1
      AND system_signature_of (system_manager (snd ?d)) ''Physics'')
     = system_signature_of (system_manager (snd ?d)) ''Physics''"
    by simp
  with f s demo_engine_added show ?thesis by blast
qed

text \<open>
  C2, as the code has it. Immediately after a successful \<^verbatim>\<open>AddComponent\<close> or
  \<^verbatim>\<open>RemoveComponent\<close> on an entity \<open>e\<close>, the registered systems are the same as
  before, and for each of them \<open>e\<close> is in the system's entity set if and only if
  \<open>e\<close>'s signature AND the system's signature equals the system's signature (the empty
  signature for a system that has none set). Immediately after a successful
  \<^verbatim>\<open>DestroyEntity\<close> on \<open>e\<close>, the registered systems are the same, \<open>e\<close>'s signature is
  empty and \<open>e\<close> is in no system's set; the equivalence then holds for every system
  whose signature is not empty.
\<close>

theorem signature_system_consistency:
  "((Engine_AddComponent eng T e c = (None, eng') \<or>
     Engine_RemoveComponent eng T e = (None, eng')) \<longrightarrow>
      map fst (systems (system_manager eng')) = map fst (systems (system_manager eng)) \<and>
      (\<forall>(S, system) \<in> set (systems (system_manager eng')).
         (e \<in> entities system) =
         ((entity_signatures (entity_manager eng') e AND system_signature_of (system_manager eng') S)
            = system_signature_of (system_manager eng') S))) \<and>
   (Engine_DestroyEntity eng e = (None, eng') \<longrightarrow>
      map fst (systems (system_manager eng')) = map fst (systems (system_manager eng)) \<and>
      entity_signatures (entity_manager eng') e = 0 \<and>
      (\<forall>(S, system) \<in> set (systems (system_manager eng')). e \<notin> entities system) \<and>
      (\<forall>(S, system) \<in> set (systems (system_manager eng')).
         system_signature_of (system_manager eng') S \<noteq> 0 \<longrightarrow>
         (e \<in> entities system) =
         ((entity_signatures (entity_manager eng') e AND system_signature_of (system_manager eng') S)
            = system_signature_of (system_manager eng') S)))"
proof (intro conjI impI)
  assume a: "Engine_AddComponent eng T e c = (None, eng') \<or>
     Engine_RemoveComponent eng T e = (None, eng')"
  then obtain eng1 v where bit: "set_component_bit eng1 T e v = (None, eng')"
    and sm1: "system_manager eng1 = system_manager eng"
    by (auto simp: Engine_AddComponent_def Engine_RemoveComponent_def
        split: prod.splits option.splits sum.splits)
  from set_component_bit_consistent [OF bit] sm1
  show "map fst (systems (system_manager eng')) = map fst (systems (system_manager eng))"
    and "\<forall>(S, system) \<in> set (systems (system_manager eng')).
         (e \<in> entities system) =
         ((entity_signatures (entity_manager eng') e AND system_signature_of (system_manager eng') S)
            = system_signature_of (system_manager eng') S)"
    by simp_all
next
  assume d: "Engine_DestroyEntity eng e = (None, eng')"
  note s = Engine_DestroyEntity_success [OF d]
  from s show names: "map fst (systems (system_manager eng')) = map fst (systems (system_manager eng))"
    by (simp add: SystemManager_EntityWasDestroyed_def EntityWasDestroyed_systems_map
        split_beta comp_def)
  from s show sig: "entity_signatures (entity_manager eng') e = 0" by simp
  from s show out: "\<forall>(S, system) \<in> set (systems (system_manager eng')). e \<notin> entities system"
    by (auto simp: SystemManager_EntityWasDestroyed_def EntityWasDestroyed_systems_map)
  from out sig show "\<forall>(S, system) \<in> set (systems (system_manager eng')).
         system_signature_of (system_manager eng') S \<noteq> 0 \<longrightarrow>
         (e \<in> entities system) =
         ((entity_signatures (entity_manager eng') e AND system_signature_of (system_manager eng') S)
            = system_signature_of (system_manager eng') S)"
    by auto
qed

theorem signature_system_consistency_witness:
  "Engine_AddComponent demo_registered ''Position'' 1 10 = (None, demo_engine) \<and>
   map (\<lambda>(S, system).
          (S, 1 \<in> entities system,
           (entity_signatures (entity_manager demo_engine) 1
              AND system_signature_of (system_manager demo_engine) S)
             = system_signature_of (system_manager demo_engine) S))
       (systems (system_manager demo_engine)) = [(''Physics'', True, True)] \<and>
   fst (Engine_DestroyEntity demo_engine 1) = None \<and>
   entity_signatures (entity_manager (snd (Engine_DestroyEntity demo_engine 1))) 1 = 0 \<and>
   map (\<lambda>(S, system). (S, 1 \<in> entities system))
       (systems (system_manager (snd (Engine_DestroyEntity demo_engine 1)))) =
     [(''Physics'', False)]"
proof -
  let ?d = "Engine_DestroyEntity demo_engine 1"
  have f: "fst ?d = None"
    unfolding Engine_DestroyEntity_def
    by (simp add: EntityManager_DestroyEntity_def
        ComponentManager_EntityWasDestroyed_def ComponentList_EntityWasDestroyed_def
        ComponentList_Remove_def size_t_dec_def Let_def demo_defs)
  then have d: "?d = (None, snd ?d)"
    by (simp only: prod_eq_iff fst_conv snd_conv simp_thms)
  from signature_system_consistency
         [where eng = demo_registered and T = "''Position''" and e = 1 and c = 10
            and eng' = demo_engine]
       signature_system_consistency
         [where eng = demo_engine and e = 1 and eng' = "snd ?d" and T = "''Position''" and c = 10]
       demo_engine_added d
  have add: "\<forall>(S, system) \<in> set (systems (system_manager demo_engine)).
         (1 \<in> entities system) =
         ((entity_signatures (entity_manager demo_engine) 1
             AND system_signature_of (system_manager demo_engine) S)
            = system_signature_of (system_manager demo_engine) S)"
    and names: "map fst (systems (system_manager (snd ?d))) = map fst (systems (system_manager demo_engine))"
    and sig: "entity_signatures (entity_manager (snd ?d)) 1 = 0"
    and out: "\<forall>(S, system) \<in> set (systems (system_manager (snd ?d))). 1 \<notin> entities system"
    by blast+
  from add have "map (\<lambda>(S, system).
          (S, 1 \<in> entities system,
           (entity_signatures (entity_manager demo_engine) 1
              AND system_signature_of (system_manager demo_engine) S)
             = system_signature_of (system_manager demo_engine) S))
       (systems (system_manager demo_engine)) = [(''Physics'', True, True)]"
    by (simp add: demo_engine_systems)
  moreover from names obtain system' where
    s': "systems (system_manager (snd ?d)) = [(''Physics'', system')]"
    by (auto simp: demo_engine_systems map_eq_Cons_conv)
  with out have "map (\<lambda>(S, system). (S, 1 \<in> entities system))
       (systems (system_manager (snd ?d))) = [(''Physics'', False)]"
    by simp
  ultimately show ?thesis
    using demo_engine_added f sig by simp
qed

section \<open>What a failed facade call leaves behind\<close>

lemma ComponentManager_AddComponent_failure:
  assumes "ComponentManager_AddComponent cm T e c = (Some err, cm')"
  shows "cm' = cm"
proof (cases "T \<in> dom (component_types cm)")
  case True
  with assms show ?thesis
    by (auto simp: ComponentManager_AddComponent_def split: sum.splits)
next
  case False
  let ?cm1 = "ComponentManager_RegisterComponent cm T"
  have "ComponentManager_GetComponentList ?cm1 T = Inr ComponentList_new"
    using False
    by (simp add: ComponentManager_GetComponentList_def ComponentManager_RegisterComponent_def
        update_conv')
  moreover have "\<exists>l'. ComponentList_Insert (ComponentList_new :: 'a ComponentList) e c = Inr l'"
    by (simp add: ComponentList_Insert_def ComponentList_new_def)
  ultimately have "fst (ComponentManager_AddComponent cm T e c) = None"
    using False by (auto simp: ComponentManager_AddComponent_def Let_def)
  with assms show ?thesis by simp
qed

text \<open>The destroy hook of a store never throws, so neither does the broadcast.\<close>

lemma ComponentList_EntityWasDestroyed_returns:
  "ComponentList_EntityWasDestroyed l e \<noteq> Inl err"
  by (auto simp: ComponentList_EntityWasDestroyed_def ComponentList_Remove_def Let_def
      split: if_splits prod.splits)

lemma EntityWasDestroyed_lists_returns:
  "EntityWasDestroyed_lists ls e \<noteq> (Some err, ls')"
proof (induction ls e arbitrary: ls' rule: EntityWasDestroyed_lists.induct)
  case (1 entity)
  then show ?case by simp
next
  case (2 name component_list rest entity)
  then show ?case
    by (auto simp: ComponentList_EntityWasDestroyed_returns split: sum.splits prod.splits)
qed

text \<open>
  On a fresh engine, \<^verbatim>\<open>AddComponent\<close> for the entity identifier 65535
  (\<open>= kMaxEntities\<close>) fails with \<open>OutOfRange\<close> when the signature is read, after the
  component manager has registered the type and stored the component: the engine is not
  as it was, \<^verbatim>\<open>GetComponent\<close> now returns the value.
\<close>

theorem failed_AddComponent_counterexample:
  "fst (Engine_AddComponent (Engine_new :: nat Engine) ''Position'' 65535 10) = Some OutOfRange \<and>
   snd (Engine_AddComponent (Engine_new :: nat Engine) ''Position'' 65535 10) \<noteq> Engine_new \<and>
   Engine_GetComponent (Engine_new :: nat Engine) ''Position'' 65535 = Inl NotFound \<and>
   Engine_GetComponent (snd (Engine_AddComponent (Engine_new :: nat Engine) ''Position'' 65535 10))
     ''Position'' 65535 = Inr 10"
proof -
  let ?r = "Engine_AddComponent (Engine_new :: nat Engine) ''Position'' 65535 10"
  have a: "fst ?r = Some OutOfRange"
    by (simp add: demo_defs)
  have b: "Engine_GetComponent (Engine_new :: nat Engine) ''Position'' 65535 = Inl NotFound"
    by (simp add: Engine_GetComponent_def ComponentManager_GetComponent_def
        ComponentManager_GetComponentList_def Engine_new_def ComponentManager_new_def)
  have c: "Engine_GetComponent (snd ?r) ''Position'' 65535 = Inr 10"
    by (simp add: Engine_GetComponent_def ComponentManager_GetComponent_def
        ComponentList_Get_def demo_defs)
  from b c have "snd ?r \<noteq> Engine_new" by auto
  with a b c show ?thesis by blast
qed

text \<open>
  C3, as the code has it. When \<^verbatim>\<open>AddComponent\<close> or \<^verbatim>\<open>RemoveComponent\<close> fails, the
  entity manager (signatures and pool) and the system manager (entity sets and
  signatures) are unchanged, and when the failure is the store's or the component
  manager's own (\<open>DuplicateEntity\<close>, \<open>NotFound\<close>) the whole engine is unchanged.
  When \<^verbatim>\<open>DestroyEntity\<close> fails with \<open>OutOfRange\<close> the whole engine is unchanged.
\<close>

theorem failure_leaves_signatures_and_systems:
  "((Engine_AddComponent eng T e c = (Some err, eng') \<or>
     Engine_RemoveComponent eng T e = (Some err, eng')) \<longrightarrow>
      entity_manager eng' = entity_manager eng \<and>
      system_manager eng' = system_manager eng \<and>
      (err = DuplicateEntity \<or> err = NotFound \<longrightarrow> eng' = eng)) \<and>
   (Engine_DestroyEntity eng e = (Some OutOfRange, eng') \<longrightarrow> eng' = eng)"
proof (intro conjI impI)
  assume a: "Engine_AddComponent eng T e c = (Some err, eng') \<or>
     Engine_RemoveComponent eng T e = (Some err, eng')"
  then consider
      (store) "eng' = eng"
    | (later) cm' where "eng' = eng\<lparr> component_manager := cm' \<rparr>"
        "err = UnregisteredType \<or> err = OutOfRange \<or> err = BitsetOutOfRange"
  proof
    assume add: "Engine_AddComponent eng T e c = (Some err, eng')"
    show ?thesis
    proof (cases "ComponentManager_AddComponent (component_manager eng) T e c")
      case (Pair r cm')
      show ?thesis
      proof (cases r)
        case None
        with add Pair have "set_component_bit (eng\<lparr> component_manager := cm' \<rparr>) T e True = (Some err, eng')"
          by (simp add: Engine_AddComponent_def)
        from set_component_bit_failure [OF this] show ?thesis
          by (intro later [of cm']) simp_all
      next
        case (Some err')
        with Pair ComponentManager_AddComponent_failure [of "component_manager eng" T e c err' cm']
        have "cm' = component_manager eng" by simp
        with add Pair Some show ?thesis
          by (intro store) (simp add: Engine_AddComponent_def)
      qed
    qed
  next
    assume rm: "Engine_RemoveComponent eng T e = (Some err, eng')"
    show ?thesis
    proof (cases "ComponentManager_RemoveComponent (component_manager eng) T e")
      case (Inl err')
      with rm show ?thesis
        by (intro store) (simp add: Engine_RemoveComponent_def)
    next
      case (Inr cm')
      with rm have "set_component_bit (eng\<lparr> component_manager := cm' \<rparr>) T e False = (Some err, eng')"
        by (simp add: Engine_RemoveComponent_def)
      from set_component_bit_failure [OF this] show ?thesis
        by (intro later [of cm']) simp_all
    qed
  qed
  then show "entity_manager eng' = entity_manager eng"
    and "system_manager eng' = system_manager eng"
    and "err = DuplicateEntity \<or> err = NotFound \<Longrightarrow> eng' = eng"
    by (cases; auto)+
next
  assume d: "Engine_DestroyEntity eng e = (Some OutOfRange, eng')"
  show "eng' = eng"
  proof (cases "EntityManager_DestroyEntity (entity_manager eng) e")
    case (Inl err')
    with d show ?thesis by (simp add: Engine_DestroyEntity_def)
  next
    case (Inr em')
    with d show ?thesis
      by (auto simp: Engine_DestroyEntity_def ComponentManager_EntityWasDestroyed_def Let_def
          EntityWasDestroyed_lists_returns split: prod.splits option.splits)
  qed
qed

theorem failure_leaves_signatures_and_systems_witness:
  "Engine_AddComponent demo_engine ''Position'' 1 11 = (Some DuplicateEntity, demo_engine) \<and>
   Engine_DestroyEntity demo_engine 65535 = (Some OutOfRange, demo_engine) \<and>
   fst (Engine_AddComponent demo_engine ''Position'' 65535 11) = Some OutOfRange \<and>
   entity_manager (snd (Engine_AddComponent demo_engine ''Position'' 65535 11)) =
     entity_manager demo_engine \<and>
   system_manager (snd (Engine_AddComponent demo_engine ''Position'' 65535 11)) =
     system_manager demo_engine"
proof -
  let ?a = "Engine_AddComponent demo_engine ''Position'' 1 11"
  let ?b = "Engine_AddComponent demo_engine ''Position'' 65535 11"
  let ?d = "Engine_DestroyEntity demo_engine 65535"
  have fa: "fst ?a = Some DuplicateEntity"
    by (simp add: demo_defs)
  then have a: "?a = (Some DuplicateEntity, snd ?a)"
    by (simp only: prod_eq_iff fst_conv snd_conv simp_thms)
  have fb: "fst ?b = Some OutOfRange"
    by (simp add: demo_defs)
  then have b: "?b = (Some OutOfRange, snd ?b)"
    by (simp only: prod_eq_iff fst_conv snd_conv simp_thms)
  have fd: "fst ?d = Some OutOfRange"
    by (simp add: Engine_DestroyEntity_def EntityManager_DestroyEntity_def
        CheckEntityOutOfBound_def kMaxEntities_def)
  then have d: "?d = (Some OutOfRange, snd ?d)"
    by (simp only: prod_eq_iff fst_conv snd_conv simp_thms)
  from failure_leaves_signatures_and_systems
         [where eng = demo_engine and T = "''Position''" and e = 1 and c = 11
            and err = DuplicateEntity and eng' = "snd ?a"] a
  have "snd ?a = demo_engine" by blast
  moreover
  from failure_leaves_signatures_and_systems
         [where eng = demo_engine and T = "''Position''" and e = 65535 and c = 11
            and err = OutOfRange and eng' = "snd ?b"] b
  have "entity_manager (snd ?b) = entity_manager demo_engine"
    "system_manager (snd ?b) = system_manager demo_engine" by blast+
  moreover
  from failure_leaves_signatures_and_systems
         [where eng = demo_engine and T = "''Position''" and e = 65535 and c = 11
            and err = OutOfRange and eng' = "snd ?d"] d
  have "snd ?d = demo_engine" by blast
  ultimately show ?thesis
    using fa fb fd by (simp add: prod_eq_iff)
qed

end
